theory Spec2Isabelle
  imports Main
begin

section \<open>Strings of the host language\<close>

text \<open>
  A string is a list of characters. The string methods the two modules call are
  written out here with the behaviour the language gives them on every argument,
  so that no call falls outside what the model defines.
\<close>

definition startsWith :: "string \<Rightarrow> string \<Rightarrow> bool" where
  "startsWith value p = (take (length p) value = p)"

definition substrFrom :: "string \<Rightarrow> nat \<Rightarrow> string" where
  \<comment> \<open>\<open>value.substr(start)\<close>\<close>
  "substrFrom value start = drop start value"

definition substr :: "string \<Rightarrow> nat \<Rightarrow> nat \<Rightarrow> string" where
  \<comment> \<open>\<open>value.substr(start, len)\<close>\<close>
  "substr value start len = take len (drop start value)"

definition charAt :: "string \<Rightarrow> nat \<Rightarrow> string" where
  \<comment> \<open>\<open>v[i]\<close> as a one-character string; both modules index only below the length.\<close>
  "charAt v i = take 1 (drop i v)"

definition padStart :: "nat \<Rightarrow> char \<Rightarrow> string \<Rightarrow> string" where
  "padStart n c value = replicate (n - length value) c @ value"

fun join :: "string \<Rightarrow> string list \<Rightarrow> string" where
  "join sep [] = []"
| "join sep [p] = p"
| "join sep (p # q # ps) = p @ sep @ join sep (q # ps)"

fun str_includes :: "string \<Rightarrow> string \<Rightarrow> bool" where
  "str_includes [] needle = (needle = [])"
| "str_includes (h # t) needle = (take (length needle) (h # t) = needle \<or> str_includes t needle)"

fun str_less :: "string \<Rightarrow> string \<Rightarrow> bool" where
  \<comment> \<open>the \<open><\<close> of two strings: lexicographic, by character code\<close>
  "str_less [] [] = False"
| "str_less [] (y # ys) = True"
| "str_less (x # xs) [] = False"
| "str_less (x # xs) (y # ys) =
     ((of_char x :: nat) < of_char y \<or> (x = y \<and> str_less xs ys))"

definition toUpperChar :: "char \<Rightarrow> char" where
  "toUpperChar c =
     (case map_of (zip ''abcdefghijklmnopqrstuvwxyz'' ''ABCDEFGHIJKLMNOPQRSTUVWXYZ'') c of
        Some u \<Rightarrow> u
      | None \<Rightarrow> c)"

definition toLocaleUpperCase :: "string \<Rightarrow> string" where
  \<comment> \<open>upper-casing of the letters a to z; every other character is left as it is\<close>
  "toLocaleUpperCase value = map toUpperChar value"

function toString :: "nat \<Rightarrow> string" where
  \<comment> \<open>\<open>String(n)\<close> for a non-negative integer: decimal digits, no padding\<close>
  "toString n =
     (if n < 10 then [char_of (48 + n)]
      else toString (n div 10) @ [char_of (48 + n mod 10)])"
  by pat_completeness auto
termination
  by (relation "measure id") auto

declare toString.simps [simp del]

section \<open>Errors and results\<close>

datatype ValidationError = InvalidFormat | InvalidLength | InvalidComponent | InvalidChecksum

text \<open>
  The object \<open>validate\<close> returns: \<open>isValid\<close> is always present, every other
  field is optional in the declared type, so each is an option here.
\<close>

record ValidateReturn =
  isValid :: bool
  compact :: "string option"
  isIndividual :: "bool option"
  isCompany :: "bool option"
  error :: "ValidationError option"

definition invalid :: "ValidationError \<Rightarrow> ValidateReturn" where
  \<comment> \<open>\<open>{ isValid: false, error }\<close>\<close>
  "invalid e =
     \<lparr>isValid = False, compact = None, isIndividual = None, isCompany = None,
      error = Some e\<rparr>"

definition valid :: "string \<Rightarrow> bool \<Rightarrow> bool \<Rightarrow> ValidateReturn" where
  \<comment> \<open>\<open>{ isValid: true, compact, isIndividual, isCompany }\<close>\<close>
  "valid v ind com =
     \<lparr>isValid = True, compact = Some v, isIndividual = Some ind, isCompany = Some com,
      error = None\<rparr>"

section \<open>The shared helpers\<close>

text \<open>
  The modules import their helpers from the library's \<open>util\<close> directory, whose
  files are not among the sources at hand. Each helper is therefore modelled from
  its description in the specification.
\<close>

definition isDigitChar :: "char \<Rightarrow> bool" where
  "isDigitChar c = (c \<in> set ''0123456789'')"

definition isAlphaChar :: "char \<Rightarrow> bool" where
  "isAlphaChar c =
     (c \<in> set ''ABCDEFGHIJKLMNOPQRSTUVWXYZabcdefghijklmnopqrstuvwxyz'')"

definition isdigits :: "string \<Rightarrow> bool" where
  \<comment> \<open>Modelled from the spec: \<open>isdigits\<close> of util is missing; "middle must be
      digits": every character is a decimal digit.\<close>
  "isdigits s = list_all isDigitChar s"

definition isalpha :: "string \<Rightarrow> bool" where
  \<comment> \<open>Modelled from the spec: \<open>isalpha\<close> of util is missing; "first/last character
      must be alphabetic": every character is a letter.\<close>
  "isalpha s = list_all isAlphaChar s"

definition inAlphabet :: "char \<Rightarrow> bool" where
  "inAlphabet c = (isAlphaChar c \<or> isDigitChar c)"

definition cleanUnicode :: "string \<Rightarrow> string \<Rightarrow> string \<times> ValidationError option" where
  \<comment> \<open>Modelled from the spec: \<open>cleanUnicode\<close> of util is missing. The normalizer
      "removes every character present in allowedSeparators" and "fails with
      InvalidFormat when, after separator removal, any character lies outside the
      jurisdiction's declared alphabet (letters, digits ...)". Its result is a
      CleanedValue, "the normalized string -- uppercase where applicable,
      separators removed", so the letters come out in upper case. The spec does
      not say which string accompanies the error; the model returns the empty
      one.\<close>
  "cleanUnicode input deletechars =
     (let cleaned = toLocaleUpperCase (filter (\<lambda>c. c \<notin> set deletechars) input)
      in if list_all inAlphabet cleaned then (cleaned, None)
         else ('''', Some InvalidFormat))"

definition normalized :: "string \<Rightarrow> bool" where
  \<comment> \<open>the strings the normalizer returns without error: letters and digits,
      the letters in upper case\<close>
  "normalized v = (list_all inAlphabet v \<and> toLocaleUpperCase v = v)"

definition cutpoint :: "string \<Rightarrow> int \<Rightarrow> nat" where
  "cutpoint value p =
     (if p < 0 then nat (int (length value) + p) else min (nat p) (length value))"

fun pieces :: "string \<Rightarrow> nat \<Rightarrow> nat list \<Rightarrow> string list" where
  "pieces value start [] = [drop start value]"
| "pieces value start (p # ps) = take (p - start) (drop start value) # pieces value p ps"

definition splitAt :: "string \<Rightarrow> int list \<Rightarrow> string list" where
  \<comment> \<open>Modelled from the spec: \<open>splitAt\<close> of util is missing, and the spec shows its
      two uses only: cutting the display form into groups, and separating the
      "trailing check substring". The value is cut at the given offsets, a
      negative offset counting from the end.\<close>
  "splitAt value points = pieces value 0 (map (cutpoint value) points)"

fun formatPattern :: "string \<Rightarrow> string \<Rightarrow> string" where
  \<comment> \<open>Modelled from the spec: \<open>formatPattern\<close> of util is missing. "Walks the
      template left to right; literal tokens emit themselves; placeholder tokens
      consume the next character of the cleaned value." The output for a value of
      the wrong length is left undefined by the spec: here a placeholder with
      nothing left to consume emits nothing, and characters left over are dropped.\<close>
  "formatPattern [] value = []"
| "formatPattern (t # ts) value =
     (if t = CHR ''?'' then
        (case value of [] \<Rightarrow> formatPattern ts [] | c # cs \<Rightarrow> c # formatPattern ts cs)
      else t # formatPattern ts value)"

definition digitValue :: "char \<Rightarrow> nat" where
  "digitValue c = of_char c - 48"

fun luhnSum :: "bool \<Rightarrow> string \<Rightarrow> nat" where
  "luhnSum dbl [] = 0"
| "luhnSum dbl (c # cs) =
     (let d = digitValue c;
          v = (if dbl then (if 2 * d > 9 then 2 * d - 9 else 2 * d) else d)
      in v + luhnSum (\<not> dbl) cs)"

definition luhnChecksumValidate :: "string \<Rightarrow> bool" where
  \<comment> \<open>Modelled from the spec: \<open>luhnChecksumValidate\<close> of util/checksum is missing.
      "Process digits right-to-left; double every second digit ...; if doubling
      exceeds 9, subtract 9; sum all resulting values; valid iff total mod 10
      equals 0."\<close>
  "luhnChecksumValidate value = (luhnSum False (rev value) mod 10 = 0)"

definition weightedSum :: "string \<Rightarrow> nat list \<Rightarrow> nat \<Rightarrow> nat" where
  \<comment> \<open>Modelled from the spec: \<open>weightedSum\<close> of util/checksum is missing. "Multiply
      digit at position i (0-indexed, left to right) by weights[i]; sum all
      products; result is sum mod modulus."\<close>
  "weightedSum value weights modulus =
     sum_list (map (\<lambda>(c, w). digitValue c * w) (zip value weights)) mod modulus"

section \<open>South African TIN\<close>

definition za_clean :: "string \<Rightarrow> string \<times> ValidationError option" where
  "za_clean input =
     (let (value, err) = cleanUnicode input '' -.''
      in case err of
           Some e \<Rightarrow> (value, Some e)
         | None \<Rightarrow>
             if startsWith value ''0000'' then (substrFrom value 4, None)
             else (value, None))"

definition za_compact :: "string \<Rightarrow> ValidationError + string" where
  \<comment> \<open>\<open>throw err\<close> is the left summand\<close>
  "za_compact input =
     (let (value, err) = za_clean input
      in case err of Some e \<Rightarrow> Inl e | None \<Rightarrow> Inr value)"

definition za_format :: "string \<Rightarrow> ValidationError + string" where
  \<comment> \<open>\<open>const [value] = clean(input)\<close> drops the error component; nothing in the
      body throws\<close>
  "za_format input =
     (let (value, _) = za_clean input
      in Inr (join ''.'' (splitAt (padStart 11 CHR ''0'' value) [4, 6])))"

text \<open>
  \<open>validate\<close> with the two checksum primitives it imports taken as parameters.
  \<open>splitAt\<close> with one cut point returns two parts, so the destructuring
  \<open>[front, check]\<close> reads the parts at indices 0 and 1.
\<close>

definition za_validate_with ::
  "(string \<Rightarrow> bool) \<Rightarrow> (string \<Rightarrow> nat list \<Rightarrow> nat \<Rightarrow> nat) \<Rightarrow> string \<Rightarrow> ValidateReturn" where
  "za_validate_with luhn wsum input =
     (let (value, error) = za_clean input
      in case error of
           Some e \<Rightarrow> invalid e
         | None \<Rightarrow>
             if length value \<noteq> 11 \<and> length value \<noteq> 7 then invalid InvalidLength
             else if \<not> isdigits value then invalid InvalidFormat
             else if length value = 7 \<and> \<not> luhn value then invalid InvalidChecksum
             else if length value = 11 then
               (let parts = splitAt value [- 1];
                    front = parts ! 0;
                    check = parts ! 1;
                    sum = wsum front [6, 7, 8, 9, 4, 5, 6, 7, 8, 9] 11
                in if toString sum \<noteq> check then invalid InvalidChecksum
                   else valid value False True)
             else valid value False True)"

definition za_validate :: "string \<Rightarrow> ValidateReturn" where
  "za_validate input = za_validate_with luhnChecksumValidate weightedSum input"

section \<open>Andorran NRT\<close>

text \<open>
  The methods of \<open>NrtSingleton\<close>, called on the instance \<open>Nrt\<close>, so that
  \<open>this.compact\<close> in \<open>format\<close> is the method \<open>compact\<close> below. The
  module also exports each method as a bare function; what \<open>this\<close> is in a
  call through such an export depends on the call site and is not modelled.
\<close>

definition ad_clean :: "string \<Rightarrow> string \<times> ValidationError option" where
  "ad_clean input = cleanUnicode input '' -.''"

definition ad_compact :: "string \<Rightarrow> ValidationError + string" where
  "ad_compact input =
     (let (value, err) = ad_clean input
      in case err of Some e \<Rightarrow> Inl e | None \<Rightarrow> Inr (toLocaleUpperCase value))"

definition ad_format :: "string \<Rightarrow> ValidationError + string" where
  "ad_format input =
     (case ad_compact input of
        Inl e \<Rightarrow> Inl e
      | Inr value \<Rightarrow> Inr (formatPattern ''?-??????-?'' value))"

definition ad_validate :: "string \<Rightarrow> ValidateReturn" where
  "ad_validate value =
     (let (v, error) = ad_clean value
      in case error of
           Some e \<Rightarrow> invalid e
         | None \<Rightarrow>
             if length v \<noteq> 8 then invalid InvalidLength
             else
               (let mid = substr v 1 (length v - 2)
                in if \<not> isalpha (charAt v 0) \<or> \<not> isalpha (charAt v (length v - 1))
                   then invalid InvalidFormat
                   else if \<not> isdigits mid then invalid InvalidFormat
                   else if \<not> str_includes ''ACDEFGLOPU'' (charAt v 0)
                   then invalid InvalidComponent
                   else if charAt v 0 = ''F'' \<and> str_less ''699999'' mid
                   then invalid InvalidComponent
                   else if str_includes ''AL'' (charAt v 0) \<and> str_less ''699999'' mid
                           \<and> str_less mid ''800000''
                   then invalid InvalidComponent
                   else valid v (str_includes ''AF'' (charAt v 0))
                               (\<not> str_includes ''AF'' (charAt v 0))))"

definition andThen :: "'e + 'a \<Rightarrow> ('a \<Rightarrow> 'e + 'b) \<Rightarrow> 'e + 'b" where
  \<comment> \<open>\<open>g(f(x))\<close> when \<open>f\<close> may throw: the exception passes through \<open>g\<close>\<close>
  "andThen r g = (case r of Inl e \<Rightarrow> Inl e | Inr a \<Rightarrow> g a)"

section \<open>The modules after the call of the normalizer\<close>






section \<open>Validation with the runtime faults written out\<close>

text \<open>
  The places of \<open>validate\<close> where the language or a helper could fail at run
  time, made explicit. An index beyond the end of a string yields
  \<open>undefined\<close>, which the string helpers are not declared for; a destructuring
  of fewer parts than names leaves a name \<open>undefined\<close>; and the checksum
  primitives have a contract (spec 4.3 and the ChecksumSpec invariant): a string
  of digits, and for the weighted sum one weight per digit and a modulus that is
  not zero. In this version each such place reports a fault when its condition
  is not met, so that a proof that \<open>validate\<close> returns has to show that the
  checks before each call establish it.
\<close>

datatype fault = RuntimeFault

definition index_checked :: "string \<Rightarrow> nat \<Rightarrow> fault + string" where
  \<comment> \<open>\<open>v[i]\<close>\<close>
  "index_checked v i = (if i < length v then Inr [v ! i] else Inl RuntimeFault)"

definition destructure2 :: "string list \<Rightarrow> fault + string \<times> string" where
  \<comment> \<open>\<open>const [front, check] = parts\<close>\<close>
  "destructure2 parts =
     (case parts of
        front # check # _ \<Rightarrow> Inr (front, check)
      | _ \<Rightarrow> Inl RuntimeFault)"

definition luhn_checked :: "string \<Rightarrow> fault + bool" where
  "luhn_checked value =
     (if isdigits value then Inr (luhnChecksumValidate value) else Inl RuntimeFault)"

definition weightedSum_checked :: "string \<Rightarrow> nat list \<Rightarrow> nat \<Rightarrow> fault + nat" where
  "weightedSum_checked value weights modulus =
     (if isdigits value \<and> length weights = length value \<and> modulus \<noteq> 0
      then Inr (weightedSum value weights modulus)
      else Inl RuntimeFault)"

definition za_validate_checked :: "string \<Rightarrow> fault + ValidateReturn" where
  "za_validate_checked input =
     (let (value, error) = za_clean input
      in case error of
           Some e \<Rightarrow> Inr (invalid e)
         | None \<Rightarrow>
             if length value \<noteq> 11 \<and> length value \<noteq> 7 then Inr (invalid InvalidLength)
             else if \<not> isdigits value then Inr (invalid InvalidFormat)
             else
               andThen (if length value = 7 then luhn_checked value else Inr True)
                 (\<lambda>luhn_ok.
                    if length value = 7 \<and> \<not> luhn_ok then Inr (invalid InvalidChecksum)
                    else if length value = 11 then
                      andThen (destructure2 (splitAt value [- 1]))
                        (\<lambda>(front, check).
                           andThen (weightedSum_checked front [6, 7, 8, 9, 4, 5, 6, 7, 8, 9] 11)
                             (\<lambda>sum.
                                if toString sum \<noteq> check then Inr (invalid InvalidChecksum)
                                else Inr (valid value False True)))
                    else Inr (valid value False True)))"

definition ad_validate_checked :: "string \<Rightarrow> fault + ValidateReturn" where
  \<comment> \<open>\<open>v[0]\<close> is read once, as \<open>first\<close>; the source reads it again at each use\<close>
  "ad_validate_checked value =
     (let (v, error) = ad_clean value
      in case error of
           Some e \<Rightarrow> Inr (invalid e)
         | None \<Rightarrow>
             if length v \<noteq> 8 then Inr (invalid InvalidLength)
             else
               (let mid = substr v 1 (length v - 2)
                in andThen (index_checked v 0)
                     (\<lambda>first.
                        andThen (index_checked v (length v - 1))
                          (\<lambda>last.
                             if \<not> isalpha first \<or> \<not> isalpha last
                             then Inr (invalid InvalidFormat)
                             else if \<not> isdigits mid then Inr (invalid InvalidFormat)
                             else if \<not> str_includes ''ACDEFGLOPU'' first
                             then Inr (invalid InvalidComponent)
                             else if first = ''F'' \<and> str_less ''699999'' mid
                             then Inr (invalid InvalidComponent)
                             else if str_includes ''AL'' first \<and> str_less ''699999'' mid
                                     \<and> str_less mid ''800000''
                             then Inr (invalid InvalidComponent)
                             else Inr (valid v (str_includes ''AF'' first)
                                               (\<not> str_includes ''AF'' first))))))"

section \<open>Well-formed inputs\<close>

text \<open>
  What the two modules take for a well-formed identifier, said without the
  validators: every other input is malformed.
\<close>

definition za_wellformed :: "string \<Rightarrow> bool" where
  \<comment> \<open>cleaned without error to seven digits that pass the Luhn check, or to
      eleven digits whose last is the weighted remainder of the first ten\<close>
  "za_wellformed input =
     (case za_clean input of
        (v, Some e) \<Rightarrow> False
      | (v, None) \<Rightarrow>
          isdigits v
          \<and> ((length v = 7 \<and> luhnChecksumValidate v)
               \<or> (length v = 11
                   \<and> toString (weightedSum (take 10 v) [6, 7, 8, 9, 4, 5, 6, 7, 8, 9] 11)
                      = drop 10 v)))"

definition ad_wellformed :: "string \<Rightarrow> bool" where
  \<comment> \<open>cleaned without error to a letter of the allow-list, six digits outside
      the ranges excluded for that letter, and a letter\<close>
  "ad_wellformed input =
     (case ad_clean input of
        (v, Some e) \<Rightarrow> False
      | (v, None) \<Rightarrow>
          length v = 8 \<and> isalpha (take 1 v) \<and> isalpha (drop 7 v)
          \<and> isdigits (take 6 (drop 1 v))
          \<and> str_includes ''ACDEFGLOPU'' (take 1 v)
          \<and> (take 1 v = ''F'' \<longrightarrow> \<not> str_less ''699999'' (take 6 (drop 1 v)))
          \<and> (str_includes ''AL'' (take 1 v) \<longrightarrow>
                \<not> (str_less ''699999'' (take 6 (drop 1 v))
                   \<and> str_less (take 6 (drop 1 v)) ''800000'')))"

section \<open>Predicates on results\<close>

definition exactlyOneClass :: "ValidateReturn \<Rightarrow> bool" where
  \<comment> \<open>both classification fields are present and exactly one of them is true\<close>
  "exactlyOneClass r =
     (case (isIndividual r, isCompany r) of
        (Some i, Some c) \<Rightarrow> i \<noteq> c
      | _ \<Rightarrow> False)"

definition wellFormedResult :: "ValidateReturn \<Rightarrow> bool" where
  \<comment> \<open>a success carries the three success fields and no error; a failure carries
      one error and none of the success fields\<close>
  "wellFormedResult r =
     (if isValid r
      then compact r \<noteq> None \<and> isIndividual r \<noteq> None \<and> isCompany r \<noteq> None
           \<and> error r = None
      else compact r = None \<and> isIndividual r = None \<and> isCompany r = None
           \<and> error r \<noteq> None)"

section \<open>The shape of a validation result\<close>

declare str_includes.simps [simp del]
declare str_less.simps [simp del]

lemma isValid_invalid [simp]: "\<not> isValid (invalid e)"
  by (simp add: invalid_def)

lemma isValid_valid [simp]: "isValid (valid v i c)"
  by (simp add: valid_def)

lemma za_validate_with_cases:
  "(\<exists>e. za_validate_with luhn wsum input = invalid e)
   \<or> (\<exists>v. za_validate_with luhn wsum input = valid v False True)"
proof (cases "za_clean input")
  case (Pair cleaned err)
  show ?thesis
  proof (cases err)
    case None
    with Pair show ?thesis
      unfolding za_validate_with_def Let_def by auto
  next
    case (Some e)
    with Pair show ?thesis
      unfolding za_validate_with_def by auto
  qed
qed

lemma ad_validate_cases:
  "(\<exists>e. ad_validate input = invalid e)
   \<or> (\<exists>v b. ad_validate input = valid v b (\<not> b))"
proof (cases "ad_clean input")
  case (Pair v err)
  show ?thesis
  proof (cases err)
    case None
    with Pair show ?thesis
      unfolding ad_validate_def Let_def by auto
  next
    case (Some e)
    with Pair show ?thesis
      unfolding ad_validate_def by auto
  qed
qed

lemma za_valid_shape:
  assumes "isValid (za_validate_with luhn wsum input)"
  shows "\<exists>v. za_validate_with luhn wsum input = valid v False True"
  using assms za_validate_with_cases [of luhn wsum input] by auto

lemma ad_valid_shape:
  assumes "isValid (ad_validate input)"
  shows "\<exists>v b. ad_validate input = valid v b (\<not> b)"
  using assms ad_validate_cases [of input] by auto

lemma za_valid_example: "isValid (za_validate ''12345678903'')"
  by code_simp

lemma ad_valid_example: "isValid (ad_validate ''A123456Z'')"
  by code_simp

section \<open>Classification\<close>

text \<open>
  Claim C10. The South African classification is constant: whenever \<open>validate\<close>
  returns a valid result, \<open>isIndividual\<close> is false and \<open>isCompany\<close> is true,
  whichever length variant the value has.
\<close>

theorem za_classification_constant:
  assumes "isValid (za_validate input)"
  shows "isIndividual (za_validate input) = Some False
         \<and> isCompany (za_validate input) = Some True"
proof -
  from assms obtain v where "za_validate input = valid v False True"
    unfolding za_validate_def using za_valid_shape by blast
  then show ?thesis by (simp add: valid_def)
qed

theorem za_classification_constant_witness:
  "isValid (za_validate ''12345678903'')
   \<and> isIndividual (za_validate ''12345678903'') = Some False
   \<and> isCompany (za_validate ''12345678903'') = Some True"
  using za_classification_constant [OF za_valid_example] za_valid_example by simp

text \<open>
  Claim C7. Classification exclusivity: on every input for which \<open>validate\<close>
  (South Africa or Andorra) returns a valid result, exactly one of
  \<open>isIndividual\<close> and \<open>isCompany\<close> is true.
\<close>

theorem classification_exclusive:
  "(isValid (za_validate input) \<longrightarrow> exactlyOneClass (za_validate input))
   \<and> (isValid (ad_validate input) \<longrightarrow> exactlyOneClass (ad_validate input))"
proof (intro conjI impI)
  assume "isValid (za_validate input)"
  then obtain v where "za_validate input = valid v False True"
    unfolding za_validate_def using za_valid_shape by blast
  then show "exactlyOneClass (za_validate input)"
    by (simp add: exactlyOneClass_def valid_def)
next
  assume "isValid (ad_validate input)"
  then obtain v b where "ad_validate input = valid v b (\<not> b)"
    using ad_valid_shape by blast
  then show "exactlyOneClass (ad_validate input)"
    by (simp add: exactlyOneClass_def valid_def)
qed

theorem classification_exclusive_witness:
  "isValid (za_validate ''12345678903'') \<and> exactlyOneClass (za_validate ''12345678903'')
   \<and> isValid (ad_validate ''A123456Z'') \<and> exactlyOneClass (ad_validate ''A123456Z'')"
  using classification_exclusive [of "''12345678903''"]
    classification_exclusive [of "''A123456Z''"] za_valid_example ad_valid_example
  by simp

section \<open>The checks of the two validators, stage by stage\<close>


lemma splitAt_one_point: "length (splitAt v [p]) = 2"
  by (simp add: splitAt_def)

lemma splitAt_last:
  assumes "0 < length v"
  shows "splitAt v [- 1] = [take (length v - 1) v, drop (length v - 1) v]"
  using assms by (simp add: splitAt_def cutpoint_def nat_diff_distrib')

lemma toString_10: "toString 10 = ''10''"
  by code_simp

lemma za_validate_with_ok:
  assumes "za_clean input = (v, None)"
  shows "za_validate_with luhn wsum input =
     (if length v \<noteq> 11 \<and> length v \<noteq> 7 then invalid InvalidLength
      else if \<not> isdigits v then invalid InvalidFormat
      else if length v = 7 \<and> \<not> luhn v then invalid InvalidChecksum
      else if length v = 11
              \<and> toString (wsum (take 10 v) [6, 7, 8, 9, 4, 5, 6, 7, 8, 9] 11) \<noteq> drop 10 v
           then invalid InvalidChecksum
      else valid v False True)"
  using assms unfolding za_validate_with_def Let_def
  by (simp add: splitAt_last)

section \<open>South Africa: the weighted-sum check\<close>

text \<open>
  Claim C1. When the cleaned value has length 11, passes the digit check, and
  the weighted sum of its first ten digits (weights 6, 7, 8, 9, 4, 5, 6, 7, 8, 9)
  leaves remainder 10 modulo 11, the South African \<open>validate\<close> returns the
  failure \<open>InvalidChecksum\<close>: the remainder is rendered as the two characters
  \<open>10\<close> and compared, unpadded, with the one-character check field.
\<close>

theorem za_remainder_ten_is_mismatch:
  assumes "za_clean input = (v, None)"
    and "length v = 11"
    and "isdigits v"
    and "weightedSum (take 10 v) [6, 7, 8, 9, 4, 5, 6, 7, 8, 9] 11 = 10"
  shows "za_validate input = invalid InvalidChecksum"
proof -
  have one: "length (drop 10 v) = 1" using assms(2) by simp
  have two: "length (toString 10) = 2" by (simp add: toString_10)
  have "toString 10 \<noteq> drop 10 v"
  proof
    assume "toString 10 = drop 10 v"
    then have "length (toString 10) = length (drop 10 v)" by (rule arg_cong)
    with one two show False by simp
  qed
  with assms show ?thesis
    unfolding za_validate_def by (simp add: za_validate_with_ok)
qed

theorem za_remainder_ten_is_mismatch_witness:
  "za_clean ''9000.00.00000'' = (''90000000000'', None)
   \<and> length ''90000000000'' = 11
   \<and> isdigits ''90000000000''
   \<and> weightedSum (take 10 ''90000000000'') [6, 7, 8, 9, 4, 5, 6, 7, 8, 9] 11 = 10
   \<and> za_validate ''9000.00.00000'' = invalid InvalidChecksum"
proof -
  have a: "za_clean ''9000.00.00000'' = (''90000000000'', None)" by code_simp
  have b: "length ''90000000000'' = 11" by simp
  have c: "isdigits ''90000000000''" by code_simp
  have d: "weightedSum (take 10 ''90000000000'') [6, 7, 8, 9, 4, 5, 6, 7, 8, 9] 11 = 10"
    by code_simp
  from za_remainder_ten_is_mismatch [OF a b c d] a b c d show ?thesis by blast
qed

section \<open>South Africa: length dispatch\<close>

text \<open>
  Claim C3. The South African \<open>validate\<close> accepts cleaned values of length 11
  or 7 only. When the cleaned value has any other length the result is the
  failure \<open>InvalidLength\<close>, whatever the Luhn and weighted-sum primitives
  would compute (the result is the same for every choice of the two), and a
  cleaned value of length 11 or 7 is never rejected with \<open>InvalidLength\<close>.
\<close>

theorem za_length_dispatch:
  assumes "za_clean input = (v, None)"
  shows "(length v \<noteq> 11 \<and> length v \<noteq> 7 \<longrightarrow>
            za_validate input = invalid InvalidLength
            \<and> (\<forall>luhn wsum. za_validate_with luhn wsum input = invalid InvalidLength))
         \<and> (length v = 11 \<or> length v = 7 \<longrightarrow>
            error (za_validate input) \<noteq> Some InvalidLength)"
  using assms unfolding za_validate_def
  by (simp add: za_validate_with_ok invalid_def valid_def)

theorem za_length_dispatch_witness:
  "za_clean ''1234567890'' = (''1234567890'', None)
   \<and> za_validate ''1234567890'' = invalid InvalidLength
   \<and> (\<forall>luhn wsum. za_validate_with luhn wsum ''1234567890'' = invalid InvalidLength)
   \<and> za_clean ''12345678903'' = (''12345678903'', None)
   \<and> error (za_validate ''12345678903'') \<noteq> Some InvalidLength"
proof -
  have a: "za_clean ''1234567890'' = (''1234567890'', None)" by code_simp
  have b: "za_clean ''12345678903'' = (''12345678903'', None)" by code_simp
  from za_length_dispatch [OF a] za_length_dispatch [OF b] a b show ?thesis by simp
qed

lemma ad_validate_ok:
  assumes "ad_clean input = (v, None)"
  shows "ad_validate input =
     (if length v \<noteq> 8 then invalid InvalidLength
      else if \<not> isalpha (charAt v 0) \<or> \<not> isalpha (charAt v 7) then invalid InvalidFormat
      else if \<not> isdigits (substr v 1 6) then invalid InvalidFormat
      else if \<not> str_includes ''ACDEFGLOPU'' (charAt v 0) then invalid InvalidComponent
      else if charAt v 0 = ''F'' \<and> str_less ''699999'' (substr v 1 6)
           then invalid InvalidComponent
      else if str_includes ''AL'' (charAt v 0) \<and> str_less ''699999'' (substr v 1 6)
              \<and> str_less (substr v 1 6) ''800000''
           then invalid InvalidComponent
      else valid v (str_includes ''AF'' (charAt v 0)) (\<not> str_includes ''AF'' (charAt v 0)))"
  using assms unfolding ad_validate_def Let_def
  by simp

section \<open>Andorra: component exclusion\<close>

lemma includes_F: "str_includes ''ACDEFGLOPU'' ''F''"
  by code_simp

text \<open>
  Claim C4. When the cleaned value has length 8, alphabetic first and last
  characters, a middle of six digits, the leading character \<open>F\<close> and a middle
  greater than \<open>699999\<close>, the Andorran \<open>validate\<close> returns the failure
  \<open>InvalidComponent\<close>.
\<close>

theorem ad_component_exclusion:
  assumes "ad_clean input = (v, None)"
    and "length v = 8"
    and "isalpha (charAt v 0)" and "isalpha (charAt v 7)"
    and "isdigits (substr v 1 6)"
    and "charAt v 0 = ''F''"
    and "str_less ''699999'' (substr v 1 6)"
  shows "ad_validate input = invalid InvalidComponent"
  using assms includes_F by (simp add: ad_validate_ok)

theorem ad_component_exclusion_witness:
  "ad_clean ''F-700000-Z'' = (''F700000Z'', None)
   \<and> length ''F700000Z'' = 8
   \<and> isalpha (charAt ''F700000Z'' 0) \<and> isalpha (charAt ''F700000Z'' 7)
   \<and> isdigits (substr ''F700000Z'' 1 6)
   \<and> charAt ''F700000Z'' 0 = ''F''
   \<and> str_less ''699999'' (substr ''F700000Z'' 1 6)
   \<and> ad_validate ''F-700000-Z'' = invalid InvalidComponent"
proof -
  have a: "ad_clean ''F-700000-Z'' = (''F700000Z'', None)" by code_simp
  have b: "length ''F700000Z'' = 8" by simp
  have c: "isalpha (charAt ''F700000Z'' 0)" by code_simp
  have d: "isalpha (charAt ''F700000Z'' 7)" by code_simp
  have e: "isdigits (substr ''F700000Z'' 1 6)" by code_simp
  have f: "charAt ''F700000Z'' 0 = ''F''" by code_simp
  have g: "str_less ''699999'' (substr ''F700000Z'' 1 6)" by code_simp
  from ad_component_exclusion [OF a b c d e f g] a b c d e f g show ?thesis by blast
qed

section \<open>The normalizer on its own output\<close>

lemma alphabet_not_separator:
  assumes "inAlphabet c"
  shows "c \<notin> set '' -.''"
  using assms unfolding inAlphabet_def isAlphaChar_def isDigitChar_def by auto

lemma digit_in_alphabet: "isDigitChar c \<Longrightarrow> inAlphabet c"
  by (simp add: inAlphabet_def)

lemma filter_alphabet_id:
  assumes "list_all inAlphabet xs"
  shows "filter (\<lambda>c. c \<notin> set '' -.'') xs = xs"
  using assms
  by (induction xs) (auto dest: alphabet_not_separator simp del: set_simps list.set)

lemma toUpperChar_alphabet:
  assumes "inAlphabet c"
  shows "inAlphabet (toUpperChar c)"
  using assms unfolding inAlphabet_def isAlphaChar_def isDigitChar_def toUpperChar_def
  by auto

lemma toUpperChar_idem: "toUpperChar (toUpperChar c) = toUpperChar c"
  unfolding toUpperChar_def by simp

lemma digits_upper: "list_all (\<lambda>c. toUpperChar c = c) ''0123456789''"
  by code_simp

lemma toUpperChar_digit: "isDigitChar c \<Longrightarrow> toUpperChar c = c"
  using digits_upper unfolding isDigitChar_def list_all_iff by blast

lemma toLocaleUpperCase_idem:
  "toLocaleUpperCase (toLocaleUpperCase v) = toLocaleUpperCase v"
  unfolding toLocaleUpperCase_def by (simp add: toUpperChar_idem)

lemma cleanUnicode_ok:
  assumes "cleanUnicode x seps = (c, None)"
  shows "c = toLocaleUpperCase (filter (\<lambda>ch. ch \<notin> set seps) x) \<and> normalized c"
proof -
  from assms have c: "c = toLocaleUpperCase (filter (\<lambda>ch. ch \<notin> set seps) x)"
    and alpha: "list_all inAlphabet c"
    unfolding cleanUnicode_def Let_def by (auto split: if_splits)
  from c have "toLocaleUpperCase c = c" by (simp only: toLocaleUpperCase_idem)
  with c alpha show ?thesis unfolding normalized_def by blast
qed

lemma cleanUnicode_err:
  assumes "cleanUnicode x seps = (c, Some e)"
  shows "e = InvalidFormat \<and> c = ''''"
  using assms unfolding cleanUnicode_def Let_def by (auto split: if_splits)

lemma cleanUnicode_clean:
  assumes "normalized v"
  shows "cleanUnicode v '' -.'' = (v, None)"
proof -
  from assms have alpha: "list_all inAlphabet v" and up: "toLocaleUpperCase v = v"
    unfolding normalized_def by blast+
  show ?thesis
    unfolding cleanUnicode_def Let_def
    by (simp only: filter_alphabet_id [OF alpha] up alpha if_True)
qed

lemma normalized_drop:
  assumes "normalized v"
  shows "normalized (drop n v)"
proof -
  from assms have alpha: "list_all inAlphabet v" and up: "map toUpperChar v = v"
    unfolding normalized_def toLocaleUpperCase_def by blast+
  have "list_all inAlphabet (drop n v)"
    using alpha unfolding list_all_iff by (meson in_set_dropD)
  moreover have "map toUpperChar (drop n v) = drop n v"
    using up by (simp only: drop_map [symmetric])
  ultimately show ?thesis unfolding normalized_def toLocaleUpperCase_def by blast
qed

lemma isdigits_alphabet: "isdigits v \<Longrightarrow> list_all inAlphabet v"
  unfolding isdigits_def by (induction v) (auto intro: digit_in_alphabet)

lemma isdigits_normalized:
  assumes "isdigits v"
  shows "normalized v"
proof -
  have "map toUpperChar v = v"
    using assms unfolding isdigits_def
    by (induction v) (auto simp: toUpperChar_digit)
  with isdigits_alphabet [OF assms] show ?thesis
    unfolding normalized_def toLocaleUpperCase_def by blast
qed

lemma za_compact_range:
  assumes "za_compact x = Inr v"
  shows "normalized v"
proof (cases "cleanUnicode x '' -.''")
  case (Pair c err)
  with assms have err: "err = None"
    unfolding za_compact_def za_clean_def by (auto split: option.splits)
  with Pair have c: "normalized c" using cleanUnicode_ok by blast
  then have "normalized (drop 4 c)" by (rule normalized_drop)
  with Pair err assms c show ?thesis
    unfolding za_compact_def za_clean_def substrFrom_def by (auto split: if_splits)
qed

lemma za_clean_of_clean:
  assumes "normalized v"
  shows "za_clean v = (if startsWith v ''0000'' then drop 4 v else v, None)"
  using cleanUnicode_clean [OF assms] unfolding za_clean_def substrFrom_def by simp

lemma za_compact_of_clean:
  assumes "normalized v"
  shows "za_compact v = Inr (if startsWith v ''0000'' then drop 4 v else v)"
  unfolding za_compact_def by (simp add: za_clean_of_clean [OF assms])

lemma ad_compact_range:
  assumes "ad_compact x = Inr v"
  shows "normalized v \<and> ad_clean x = (v, None)"
proof (cases "cleanUnicode x '' -.''")
  case (Pair c err)
  with assms have err: "err = None" and v: "v = toLocaleUpperCase c"
    unfolding ad_compact_def ad_clean_def by (auto split: option.splits)
  from Pair err have c: "normalized c" using cleanUnicode_ok by blast
  with v have "v = c" unfolding normalized_def by simp
  with c Pair err show ?thesis unfolding ad_clean_def by simp
qed

lemma ad_clean_of_clean:
  assumes "normalized v"
  shows "ad_clean v = (v, None)"
  unfolding ad_clean_def by (rule cleanUnicode_clean [OF assms])

lemma ad_compact_of_clean:
  assumes "normalized v"
  shows "ad_compact v = Inr v"
  using assms unfolding ad_compact_def normalized_def
  by (simp add: ad_clean_of_clean [OF assms])

section \<open>Idempotence of compact\<close>

text \<open>
  Claim C2, as amended. \<open>compact\<close> applied to its own result returns it
  unchanged for Andorra on every input, and for South Africa whenever the
  result does not itself begin with \<open>0000\<close>. (The South African \<open>clean\<close>
  removes one such prefix per call, so a result that still begins with
  \<open>0000\<close> is shortened again.)
\<close>

theorem compact_idempotent_unless_zero_run:
  "(ad_compact x = Inr v \<longrightarrow> ad_compact v = Inr v)
   \<and> (za_compact x = Inr v \<and> \<not> startsWith v ''0000'' \<longrightarrow> za_compact v = Inr v)"
proof (intro conjI impI)
  assume "ad_compact x = Inr v"
  then have "normalized v" using ad_compact_range by blast
  then show "ad_compact v = Inr v" by (rule ad_compact_of_clean)
next
  assume a: "za_compact x = Inr v \<and> \<not> startsWith v ''0000''"
  then have "normalized v" using za_compact_range by blast
  with a show "za_compact v = Inr v" by (simp add: za_compact_of_clean)
qed

theorem compact_idempotent_unless_zero_run_witness:
  "ad_compact ''a-123456-z'' = Inr ''A123456Z'' \<and> ad_compact ''A123456Z'' = Inr ''A123456Z''
   \<and> za_compact ''1234.56.78903'' = Inr ''12345678903''
   \<and> \<not> startsWith ''12345678903'' ''0000''
   \<and> za_compact ''12345678903'' = Inr ''12345678903''"
proof -
  have a: "ad_compact ''a-123456-z'' = Inr ''A123456Z''" by code_simp
  have b: "za_compact ''1234.56.78903'' = Inr ''12345678903''" by code_simp
  have c: "\<not> startsWith ''12345678903'' ''0000''" by code_simp
  from compact_idempotent_unless_zero_run [of "''a-123456-z''" "''A123456Z''"]
    compact_idempotent_unless_zero_run [of "''1234.56.78903''" "''12345678903''"] a b c
  show ?thesis by simp
qed

text \<open>
  Counterexample to claim C2 as stated, for South Africa: \<open>compact\<close> succeeds on
  \<open>00000000123\<close> with \<open>0000123\<close>, and a second \<open>compact\<close> gives \<open>123\<close>.
\<close>

theorem za_compact_not_idempotent:
  "za_compact ''00000000123'' = Inr ''0000123''
   \<and> andThen (za_compact ''00000000123'') za_compact = Inr ''123''
   \<and> andThen (za_compact ''00000000123'') za_compact \<noteq> za_compact ''00000000123''"
  by code_simp

section \<open>Round trip through the display form\<close>

lemma za_compact_fixed:
  assumes "za_compact v = Inr v"
  shows "normalized v \<and> \<not> startsWith v ''0000'' \<and> za_clean v = (v, None)"
proof -
  have norm: "normalized v" using assms by (rule za_compact_range)
  have "\<not> startsWith v ''0000''"
  proof
    assume s: "startsWith v ''0000''"
    then have "take (length ''0000'') v = ''0000''" unfolding startsWith_def .
    then have "length (take (length ''0000'') v) = length ''0000''" by (rule arg_cong)
    then have "4 \<le> length v" by simp
    then have "length (drop 4 v) < length v" by simp
    moreover from assms s have "drop 4 v = v" by (simp add: za_compact_of_clean [OF norm])
    ultimately show False by simp
  qed
  with norm show ?thesis by (simp add: za_clean_of_clean)
qed

lemma isdigits_padStart:
  assumes "isdigits v"
  shows "isdigits (padStart 11 CHR ''0'' v)"
proof -
  have "isDigitChar CHR ''0''" by (simp add: isDigitChar_def)
  with assms show ?thesis
    unfolding isdigits_def padStart_def by (auto simp: list_all_iff)
qed

lemma splitAt_4_6:
  assumes "length p = 11"
  shows "join ''.'' (splitAt p [4, 6]) = take 4 p @ ''.'' @ take 2 (drop 4 p) @ ''.'' @ drop 6 p"
  using assms by (simp add: splitAt_def cutpoint_def)

lemma filter_dot: "filter (\<lambda>c. c \<notin> set '' -.'') (CHR ''.'' # xs) = filter (\<lambda>c. c \<notin> set '' -.'') xs"
  by simp

lemma take_4_2_6: "take 4 p @ take 2 (drop 4 p) @ drop 6 p = p"
proof -
  have "take 6 p = take 4 p @ take 2 (drop 4 p)"
    using take_add [of 4 2 p] by simp
  then have "take 4 p @ take 2 (drop 4 p) @ drop 6 p = take 6 p @ drop 6 p" by simp
  then show ?thesis by simp
qed

lemma filter_display:
  assumes "list_all inAlphabet p"
  shows "filter (\<lambda>c. c \<notin> set '' -.'')
           (take 4 p @ ''.'' @ take 2 (drop 4 p) @ ''.'' @ drop 6 p) = p"
proof -
  have a: "list_all inAlphabet (take 4 p)" "list_all inAlphabet (take 2 (drop 4 p))"
    "list_all inAlphabet (drop 6 p)"
    using assms by (auto simp: list_all_iff dest: in_set_takeD in_set_dropD)
  have "filter (\<lambda>c. c \<notin> set '' -.'')
           (take 4 p @ ''.'' @ take 2 (drop 4 p) @ ''.'' @ drop 6 p)
        = take 4 p @ take 2 (drop 4 p) @ drop 6 p"
    using a by (simp only: filter_append append_Cons append_Nil filter_dot filter_alphabet_id)
  then show ?thesis by (simp only: take_4_2_6)
qed

lemma za_compact_display:
  assumes "normalized p"
  shows "za_compact (take 4 p @ ''.'' @ take 2 (drop 4 p) @ ''.'' @ drop 6 p)
         = Inr (if startsWith p ''0000'' then drop 4 p else p)"
proof -
  from assms have alpha: "list_all inAlphabet p" and up: "toLocaleUpperCase p = p"
    unfolding normalized_def by blast+
  have "cleanUnicode (take 4 p @ ''.'' @ take 2 (drop 4 p) @ ''.'' @ drop 6 p) '' -.''
        = (p, None)"
    unfolding cleanUnicode_def Let_def
    by (simp only: filter_display [OF alpha] up alpha if_True)
  then show ?thesis
    unfolding za_compact_def za_clean_def substrFrom_def by simp
qed

lemma za_round_trip:
  assumes fixed: "za_compact v = Inr v" and ok: "isValid (za_validate v)"
  shows "andThen (za_format v) za_compact = Inr v"
proof -
  from fixed have nz: "\<not> startsWith v ''0000''" and cl: "za_clean v = (v, None)"
    using za_compact_fixed by blast+
  from ok cl have len: "length v = 11 \<or> length v = 7" and dig: "isdigits v"
    unfolding za_validate_def by (auto simp: za_validate_with_ok split: if_splits)
  define p where "p = padStart 11 CHR ''0'' v"
  have plen: "length p = 11" using len unfolding p_def padStart_def by auto
  have pnorm: "normalized p"
    unfolding p_def using dig by (intro isdigits_normalized isdigits_padStart)
  have fmt: "za_format v
             = Inr (take 4 p @ ''.'' @ take 2 (drop 4 p) @ ''.'' @ drop 6 p)"
    unfolding za_format_def using cl plen by (simp add: p_def [symmetric] splitAt_4_6)
  have restored: "(if startsWith p ''0000'' then drop 4 p else p) = v"
  proof (cases "length v = 11")
    case True
    then have "p = v" unfolding p_def padStart_def by simp
    with nz show ?thesis by simp
  next
    case False
    with len have "length v = 7" by simp
    then have "p = ''0000'' @ v"
      unfolding p_def padStart_def by (simp add: numeral_eq_Suc)
    then show ?thesis by (simp add: startsWith_def)
  qed
  show ?thesis
    unfolding fmt andThen_def by (simp only: sum.case za_compact_display [OF pnorm] restored)
qed

lemma length_8_list:
  assumes "length v = 8"
  obtains a b c d e f g h where "v = [a, b, c, d, e, f, g, h]"
  using assms by (auto simp: numeral_eq_Suc length_Suc_conv)

lemma ad_compact_display:
  assumes len: "length v = 8" and norm: "normalized v"
  shows "ad_compact (formatPattern ''?-??????-?'' v) = Inr v"
proof -
  from norm have alpha: "list_all inAlphabet v" and up: "toLocaleUpperCase v = v"
    unfolding normalized_def by blast+
  from len obtain a b c d e f g h where v: "v = [a, b, c, d, e, f, g, h]"
    by (rule length_8_list)
  have fp: "formatPattern ''?-??????-?'' v
            = [a, CHR ''-'', b, c, d, e, f, g, CHR ''-'', h]"
    unfolding v by simp
  have "\<forall>x\<in>set v. x \<notin> set '' -.''"
    using alpha alphabet_not_separator unfolding list_all_iff by blast
  then have "filter (\<lambda>c. c \<notin> set '' -.'') (formatPattern ''?-??????-?'' v) = v"
    unfolding fp unfolding v by simp
  then have "cleanUnicode (formatPattern ''?-??????-?'' v) '' -.'' = (v, None)"
    unfolding cleanUnicode_def Let_def by (simp only: up alpha if_True)
  then show ?thesis
    unfolding ad_compact_def ad_clean_def by (simp add: up)
qed

lemma ad_round_trip:
  assumes fixed: "ad_compact v = Inr v" and ok: "isValid (ad_validate v)"
  shows "andThen (ad_format v) ad_compact = Inr v"
proof -
  from fixed have norm: "normalized v" using ad_compact_range by blast
  from ok have len: "length v = 8"
    by (auto simp: ad_validate_ok [OF ad_clean_of_clean [OF norm]] split: if_splits)
  have fmt: "ad_format v = Inr (formatPattern ''?-??????-?'' v)"
    unfolding ad_format_def by (simp only: fixed sum.case)
  show ?thesis
    unfolding andThen_def fmt by (simp only: sum.case ad_compact_display [OF len norm])
qed

text \<open>
  Claim C5, as amended. For every value \<open>v\<close> that \<open>compact\<close> returns
  unchanged and for which \<open>validate\<close> returns a valid result, formatting
  \<open>v\<close> and compacting the display string gives \<open>v\<close> back, for South Africa
  and for Andorra.
\<close>

theorem round_trip_on_fixed_points:
  "(za_compact v = Inr v \<and> isValid (za_validate v) \<longrightarrow>
      andThen (za_format v) za_compact = Inr v)
   \<and> (ad_compact v = Inr v \<and> isValid (ad_validate v) \<longrightarrow>
      andThen (ad_format v) ad_compact = Inr v)"
  using za_round_trip ad_round_trip by blast

theorem round_trip_on_fixed_points_witness:
  "za_compact ''12345678903'' = Inr ''12345678903'' \<and> isValid (za_validate ''12345678903'')
   \<and> andThen (za_format ''12345678903'') za_compact = Inr ''12345678903''
   \<and> za_compact ''1234566'' = Inr ''1234566'' \<and> isValid (za_validate ''1234566'')
   \<and> andThen (za_format ''1234566'') za_compact = Inr ''1234566''
   \<and> ad_compact ''A123456Z'' = Inr ''A123456Z'' \<and> isValid (ad_validate ''A123456Z'')
   \<and> andThen (ad_format ''A123456Z'') ad_compact = Inr ''A123456Z''"
proof -
  have a: "za_compact ''12345678903'' = Inr ''12345678903''
           \<and> isValid (za_validate ''12345678903'')" by code_simp
  have b: "za_compact ''1234566'' = Inr ''1234566'' \<and> isValid (za_validate ''1234566'')"
    by code_simp
  have c: "ad_compact ''A123456Z'' = Inr ''A123456Z'' \<and> isValid (ad_validate ''A123456Z'')"
    by code_simp
  from round_trip_on_fixed_points [of "''12345678903''"]
    round_trip_on_fixed_points [of "''1234566''"]
    round_trip_on_fixed_points [of "''A123456Z''"] a b c
  show ?thesis by simp
qed

text \<open>
  Counterexample to claim C5 as stated, for South Africa, on a cleaned value that begins with
  \<open>0000\<close>: \<open>00001234566\<close> is what \<open>compact\<close> returns for
  \<open>000000001234566\<close>, \<open>validate\<close> accepts it (as the seven-digit variant),
  its display form is \<open>0000.12.34566\<close>, and compacting that gives \<open>1234566\<close>.
\<close>

theorem za_round_trip_fails_on_zero_run:
  "za_compact ''000000001234566'' = Inr ''00001234566''
   \<and> isValid (za_validate ''00001234566'')
   \<and> za_format ''00001234566'' = Inr ''0000.12.34566''
   \<and> andThen (za_format ''00001234566'') za_compact = Inr ''1234566''
   \<and> andThen (za_format ''00001234566'') za_compact \<noteq> Inr ''00001234566''"
  by code_simp

section \<open>Validation before and after compact\<close>

lemma ad_validate_of_compact:
  assumes "ad_compact x = Inr v"
  shows "ad_validate x = ad_validate v"
proof -
  from assms have norm: "normalized v" and cx: "ad_clean x = (v, None)"
    using ad_compact_range by blast+
  have cv: "ad_clean v = (v, None)" using norm by (rule ad_clean_of_clean)
  show ?thesis by (simp only: ad_validate_ok [OF cx] ad_validate_ok [OF cv])
qed

lemma ad_lower_case_example:
  "ad_compact ''a123456z'' = Inr ''A123456Z''
   \<and> ad_validate ''a123456z'' = valid ''A123456Z'' True False"
  by code_simp

text \<open>
  Claim C9, as amended. The Andorran \<open>validate\<close> and \<open>compact\<close> work on the
  same normalized value, whose letters the normalizer has already put in upper
  case: whenever \<open>compact\<close> succeeds on an input, \<open>validate\<close> returns for the
  input exactly what it returns for the compacted value.
\<close>

theorem ad_validate_agrees_after_compact:
  assumes "ad_compact x = Inr v"
  shows "ad_validate x = ad_validate v"
  using assms by (rule ad_validate_of_compact)

theorem ad_validate_agrees_after_compact_witness:
  "ad_compact ''a-123456-z'' = Inr ''A123456Z''
   \<and> ad_validate ''a-123456-z'' = ad_validate ''A123456Z''
   \<and> isValid (ad_validate ''a-123456-z'')"
proof -
  have a: "ad_compact ''a-123456-z'' = Inr ''A123456Z''" by code_simp
  have b: "isValid (ad_validate ''a-123456-z'')" by code_simp
  from ad_validate_agrees_after_compact [OF a] a b show ?thesis by simp
qed

text \<open>
  Counterexample to claim C9 as stated. On the claim's own input \<open>a123456z\<close>
  \<open>validate\<close> returns a valid result, with compact form \<open>A123456Z\<close>, and
  no input at all is rejected by \<open>validate\<close> while its compacted value is
  accepted.
\<close>

theorem ad_validate_accepts_lower_case:
  "ad_compact ''a123456z'' = Inr ''A123456Z''
   \<and> ad_validate ''a123456z'' = valid ''A123456Z'' True False
   \<and> \<not> (\<exists>x v. ad_compact x = Inr v \<and> isValid (ad_validate v)
                \<and> \<not> isValid (ad_validate x))"
  using ad_lower_case_example ad_validate_of_compact by auto

section \<open>Failure of compact and format\<close>










section \<open>Validation returns a result on every input\<close>

lemma index_checked_in_range:
  assumes "i < length v"
  shows "index_checked v i = Inr (charAt v i)"
proof -
  from assms have "drop i v = v ! i # drop (Suc i) v" by (simp add: Cons_nth_drop_Suc)
  then have "take 1 (drop i v) = [v ! i]" by simp
  with assms show ?thesis unfolding index_checked_def charAt_def by simp
qed

lemma isdigits_take: "isdigits v \<Longrightarrow> isdigits (take n v)"
  unfolding isdigits_def list_all_iff by (meson in_set_takeD)

lemma za_validate_checked_returns:
  "za_validate_checked input = Inr (za_validate input)"
proof (cases "za_clean input")
  case (Pair v err)
  show ?thesis
  proof (cases err)
    case (Some e)
    with Pair show ?thesis
      unfolding za_validate_checked_def za_validate_def za_validate_with_def by simp
  next
    case None
    with Pair have cl: "za_clean input = (v, None)" by simp
    show ?thesis
    proof (cases "length v = 11")
      case True
      then have parts: "destructure2 (splitAt v [- 1]) = Inr (take 10 v, drop 10 v)"
        unfolding destructure2_def by (simp add: splitAt_last)
      have ws: "isdigits v \<Longrightarrow>
                weightedSum_checked (take 10 v) [6, 7, 8, 9, 4, 5, 6, 7, 8, 9] 11
                = Inr (weightedSum (take 10 v) [6, 7, 8, 9, 4, 5, 6, 7, 8, 9] 11)"
        using True unfolding weightedSum_checked_def by (simp add: isdigits_take)
      from True cl parts ws show ?thesis
        unfolding za_validate_checked_def za_validate_def
        by (simp add: za_validate_with_ok andThen_def)
    next
      case False
      with cl show ?thesis
        unfolding za_validate_checked_def za_validate_def
        by (simp add: za_validate_with_ok andThen_def luhn_checked_def)
    qed
  qed
qed

lemma ad_validate_checked_returns:
  "ad_validate_checked input = Inr (ad_validate input)"
proof (cases "ad_clean input")
  case (Pair v err)
  show ?thesis
  proof (cases err)
    case (Some e)
    with Pair show ?thesis
      unfolding ad_validate_checked_def ad_validate_def by simp
  next
    case None
    with Pair have cl: "ad_clean input = (v, None)" by simp
    show ?thesis
    proof (cases "length v = 8")
      case True
      then have i0: "index_checked v 0 = Inr (charAt v 0)"
        and i7: "index_checked v 7 = Inr (charAt v 7)"
        by (simp_all add: index_checked_in_range)
      from True cl i0 i7 show ?thesis
        unfolding ad_validate_checked_def
        by (simp add: ad_validate_ok andThen_def Let_def)
    next
      case False
      with cl show ?thesis
        unfolding ad_validate_checked_def by (simp add: ad_validate_ok)
    qed
  qed
qed

lemma za_validate_by_wellformed:
  "(za_wellformed input \<longrightarrow> isValid (za_validate input))
   \<and> (\<not> za_wellformed input \<longrightarrow> (\<exists>e. za_validate input = invalid e))"
proof (cases "za_clean input")
  case (Pair v err)
  show ?thesis
  proof (cases err)
    case (Some e)
    with Pair show ?thesis
      unfolding za_wellformed_def za_validate_def za_validate_with_def by auto
  next
    case None
    with Pair have cl: "za_clean input = (v, None)" by simp
    then show ?thesis
      unfolding za_wellformed_def za_validate_def
      by (auto simp: za_validate_with_ok)
  qed
qed

lemma ad_validate_by_wellformed:
  "(ad_wellformed input \<longrightarrow> isValid (ad_validate input))
   \<and> (\<not> ad_wellformed input \<longrightarrow> (\<exists>e. ad_validate input = invalid e))"
proof (cases "ad_clean input")
  case (Pair v err)
  show ?thesis
  proof (cases err)
    case (Some e)
    with Pair show ?thesis
      unfolding ad_wellformed_def ad_validate_def by auto
  next
    case None
    with Pair have cl: "ad_clean input = (v, None)" by simp
    show ?thesis
    proof (cases "length v = 8")
      case True
      then have "drop 7 v = take 1 (drop 7 v)" by simp
      with cl True show ?thesis
        unfolding ad_wellformed_def
        by (auto simp: ad_validate_ok charAt_def substr_def)
    next
      case False
      with cl show ?thesis
        unfolding ad_wellformed_def by (auto simp: ad_validate_ok)
    qed
  qed
qed

lemma za_result_well_formed: "wellFormedResult (za_validate input)"
  unfolding za_validate_def
  using za_validate_with_cases [of luhnChecksumValidate weightedSum input]
  by (auto simp: wellFormedResult_def invalid_def valid_def)

lemma ad_result_well_formed: "wellFormedResult (ad_validate input)"
  using ad_validate_cases [of input]
  by (auto simp: wellFormedResult_def invalid_def valid_def)

text \<open>
  Claim C8. \<open>validate\<close> never throws, for South Africa and for Andorra. On
  every input string the version with the runtime faults written out returns,
  and returns what \<open>validate\<close> returns: each index is below the length that
  was checked before it, the destructuring finds its two parts, and each
  checksum primitive is called on digits only, the weighted sum with one weight
  per digit. The result is a success with its three fields and no error, or a
  failure with one error kind and no success field; a malformed input yields a
  failure and a well-formed one a success.
\<close>

theorem validate_never_throws:
  "za_validate_checked input = Inr (za_validate input)
   \<and> ad_validate_checked input = Inr (ad_validate input)
   \<and> wellFormedResult (za_validate input)
   \<and> wellFormedResult (ad_validate input)
   \<and> (za_wellformed input \<longrightarrow> isValid (za_validate input))
   \<and> (\<not> za_wellformed input \<longrightarrow> (\<exists>e. za_validate input = invalid e))
   \<and> (ad_wellformed input \<longrightarrow> isValid (ad_validate input))
   \<and> (\<not> ad_wellformed input \<longrightarrow> (\<exists>e. ad_validate input = invalid e))"
  using za_validate_checked_returns [of input] ad_validate_checked_returns [of input]
    za_result_well_formed [of input] ad_result_well_formed [of input]
    za_validate_by_wellformed [of input] ad_validate_by_wellformed [of input]
  by blast

theorem validate_never_throws_witness:
  "\<not> za_wellformed ''1234567890A'' \<and> \<not> ad_wellformed ''1234567890A''
   \<and> za_validate_checked ''1234567890A'' = Inr (invalid InvalidFormat)
   \<and> ad_validate_checked ''1234567890A'' = Inr (invalid InvalidLength)
   \<and> ad_wellformed ''A-123456-Z'' \<and> \<not> za_wellformed ''A-123456-Z''
   \<and> ad_validate_checked ''A-123456-Z'' = Inr (valid ''A123456Z'' True False)
   \<and> za_validate_checked ''A-123456-Z'' = Inr (invalid InvalidLength)
   \<and> za_wellformed ''1234.56.78903''
   \<and> za_validate_checked ''1234.56.78903'' = Inr (valid ''12345678903'' False True)"
proof -
  have a: "\<not> za_wellformed ''1234567890A'' \<and> \<not> ad_wellformed ''1234567890A''
           \<and> za_validate ''1234567890A'' = invalid InvalidFormat
           \<and> ad_validate ''1234567890A'' = invalid InvalidLength"
    by code_simp
  have b: "ad_wellformed ''A-123456-Z'' \<and> \<not> za_wellformed ''A-123456-Z''
           \<and> ad_validate ''A-123456-Z'' = valid ''A123456Z'' True False
           \<and> za_validate ''A-123456-Z'' = invalid InvalidLength"
    by code_simp
  have c: "za_wellformed ''1234.56.78903''
           \<and> za_validate ''1234.56.78903'' = valid ''12345678903'' False True"
    by code_simp
  from validate_never_throws [of "''1234567890A''"]
    validate_never_throws [of "''A-123456-Z''"]
    validate_never_throws [of "''1234.56.78903''"] a b c
  show ?thesis by simp
qed

end
